theory Spec2Isabelle
  imports Complex_Main
begin

section \<open>The position engine of ReactCompareSlider\<close>

text \<open>
  The development embeds \<^verbatim>\<open>src/ReactCompareSlider.tsx\<close>. JavaScript numbers are
  modelled as exact reals: \<^verbatim>\<open>Math.min\<close>, \<^verbatim>\<open>Math.max\<close>, \<^verbatim>\<open>===\<close>, \<^verbatim>\<open>/\<close> and
  \<^verbatim>\<open>*\<close> are \<open>min\<close>, \<open>max\<close>, \<open>=\<close>, \<open>/\<close> and \<open>*\<close> on \<open>real\<close>. Rounding of IEEE
  doubles and the infinities are outside the model. The one place where the source can
  divide by zero is \<^verbatim>\<open>handleResize\<close>; there the numbers are extended by \<^verbatim>\<open>NaN\<close>.
\<close>

subsection \<open>Data\<close>

text \<open>
  The argument object of \<^verbatim>\<open>updateInternalPosition\<close>
  (\<^verbatim>\<open>UpdateInternalPositionProps\<close>; the fields \<^verbatim>\<open>x\<close> and \<^verbatim>\<open>y\<close> are called
  \<open>coordX\<close> and \<open>coordY\<close>; an absent \<^verbatim>\<open>isOffset\<close> is falsy, hence \<open>False\<close>).
\<close>

record UpdateInternalPositionProps =
  coordX :: real
  coordY :: real
  isOffset :: bool
  portrait :: bool
  boundsPadding :: real

text \<open>
  What one call reads from the document: the result of
  \<^verbatim>\<open>rootContainerRef.current.getBoundingClientRect()\<close> (\<^verbatim>\<open>top\<close>, \<^verbatim>\<open>left\<close>,
  \<^verbatim>\<open>width\<close>, \<^verbatim>\<open>height\<close>), the layout size of the root element and the scroll
  offsets of the window. It is read afresh by every call.
\<close>

record dom =
  rect_top :: real
  rect_left :: real
  rect_width :: real
  rect_height :: real
  offsetWidth :: real
  offsetHeight :: real
  pageXOffset :: real
  pageYOffset :: real

text \<open>
  The two style values the engine writes. \<open>Rect t r b l\<close> is the CSS value
  \<^verbatim>\<open>rect(t,r,b,l)\<close> where \<open>None\<close> stands for \<^verbatim>\<open>auto\<close> and \<open>Some v\<close> for
  \<^verbatim>\<open>${v}px\<close>; \<open>Translate3d a b c\<close> is \<^verbatim>\<open>translate3d(a,b,c)\<close> with the pixel
  lengths as numbers.
\<close>

datatype css_clip = Rect "real option" "real option" "real option" "real option"

datatype css_transform = Translate3d real real real

text \<open>
  Everything a call does to the outside, in the order in which the source does it: the
  assignment to \<^verbatim>\<open>clipContainerRef.current.style.clip\<close>, the assignment to
  \<^verbatim>\<open>handleContainerRef.current.style.transform\<close> and the invocation of the host's
  \<^verbatim>\<open>onPositionChange\<close>.
\<close>

datatype effect =
  StyleClip css_clip
| StyleTransform css_transform
| OnPositionChange real

text \<open>
  The mutable state of one component instance that the positioning code touches: the ref
  \<^verbatim>\<open>internalPositionPc\<close>, the React state \<^verbatim>\<open>didSyncBounds\<close> (React re-renders
  after \<^verbatim>\<open>setDidSyncBounds\<close>, so the next call of the callback sees the value that was
  set), and the log of the effects performed so far.
\<close>

record engine =
  internalPositionPc :: real
  didSyncBounds :: bool
  effects :: "effect list"

text \<open>The state right after mount: \<^verbatim>\<open>useRef(position)\<close>, \<^verbatim>\<open>useState(false)\<close>.\<close>

definition mount :: "real \<Rightarrow> engine" where
  "mount position = \<lparr>internalPositionPc = position, didSyncBounds = False, effects = []\<rparr>"

subsection \<open>The positioning pass\<close>

text \<open>\<^verbatim>\<open>a || b\<close> on numbers: \<open>0\<close> is the only falsy real.\<close>

definition js_or :: "real \<Rightarrow> real \<Rightarrow> real" where
  "js_or a b = (if a = 0 then b else a)"

text \<open>The local constants of \<^verbatim>\<open>updateInternalPosition\<close>, each under its own name.\<close>

definition positionPx :: "UpdateInternalPositionProps \<Rightarrow> dom \<Rightarrow> real" where
  "positionPx p d =
     min
       (max
          (if portrait p
           then (if isOffset p then coordY p - rect_top d - pageYOffset d else coordY p)
           else (if isOffset p then coordX p - rect_left d - pageXOffset d else coordX p))
          0)
       (if portrait p then rect_height d else rect_width d)"

definition zoomScale :: "UpdateInternalPositionProps \<Rightarrow> dom \<Rightarrow> real" where
  "zoomScale p d =
     (if portrait p
      then rect_height d / js_or (offsetHeight d) 1
      else rect_width d / js_or (offsetWidth d) 1)"

definition adjustedPosition :: "UpdateInternalPositionProps \<Rightarrow> dom \<Rightarrow> real" where
  "adjustedPosition p d = positionPx p d / zoomScale p d"

definition adjustedWidth :: "UpdateInternalPositionProps \<Rightarrow> dom \<Rightarrow> real" where
  "adjustedWidth p d = rect_width d / zoomScale p d"

definition adjustedHeight :: "UpdateInternalPositionProps \<Rightarrow> dom \<Rightarrow> real" where
  "adjustedHeight p d = rect_height d / zoomScale p d"

definition nextInternalPositionPc :: "UpdateInternalPositionProps \<Rightarrow> dom \<Rightarrow> real" where
  "nextInternalPositionPc p d =
     (adjustedPosition p d / (if portrait p then adjustedHeight p d else adjustedWidth p d)) * 100"

definition positionMeetsBounds :: "UpdateInternalPositionProps \<Rightarrow> dom \<Rightarrow> bool" where
  "positionMeetsBounds p d =
     (if portrait p
      then adjustedPosition p d = 0 \<or> adjustedPosition p d = adjustedHeight p d
      else adjustedPosition p d = 0 \<or> adjustedPosition p d = adjustedWidth p d)"

definition canSkipPositionPc :: "UpdateInternalPositionProps \<Rightarrow> dom \<Rightarrow> engine \<Rightarrow> bool" where
  "canSkipPositionPc p d s =
     (nextInternalPositionPc p d = internalPositionPc s \<and>
      (internalPositionPc s = 0 \<or> internalPositionPc s = 100))"

definition clampedPx :: "UpdateInternalPositionProps \<Rightarrow> dom \<Rightarrow> real" where
  "clampedPx p d =
     min
       (max (adjustedPosition p d) (0 + boundsPadding p))
       ((if portrait p then adjustedHeight p d else adjustedWidth p d) - boundsPadding p)"

definition clipStyle :: "UpdateInternalPositionProps \<Rightarrow> dom \<Rightarrow> css_clip" where
  "clipStyle p d =
     (if portrait p
      then Rect None None (Some (clampedPx p d)) None
      else Rect None (Some (clampedPx p d)) None None)"

definition transformStyle :: "UpdateInternalPositionProps \<Rightarrow> dom \<Rightarrow> css_transform" where
  "transformStyle p d =
     (if portrait p
      then Translate3d 0 (clampedPx p d) 0
      else Translate3d (clampedPx p d) 0 0)"

text \<open>
  The callback itself. \<open>onPositionChange\<close> says whether the host supplied the callback
  of that name. The first \<open>if\<close> is the early return on a zero width or height, the
  second the early return at an extremity; the last branch is the rest of the body.
\<close>

definition updateInternalPosition ::
  "bool \<Rightarrow> UpdateInternalPositionProps \<Rightarrow> dom \<Rightarrow> engine \<Rightarrow> engine" where
  "updateInternalPosition onPositionChange p d s =
     (if rect_width d = 0 \<or> rect_height d = 0 then s
      else if didSyncBounds s \<and> canSkipPositionPc p d s \<and> positionMeetsBounds p d then s
      else s\<lparr>didSyncBounds := True,
             internalPositionPc := nextInternalPositionPc p d,
             effects := effects s @
               [StyleClip (clipStyle p d), StyleTransform (transformStyle p d)] @
               (if onPositionChange then [OnPositionChange (nextInternalPositionPc p d)]
                else [])\<rparr>)"

subsection \<open>The callers of the positioning pass\<close>

text \<open>
  \<^verbatim>\<open>handlePointerMove\<close> (and the positioning part of \<^verbatim>\<open>handlePointerDown\<close>, which
  makes the same call): the page coordinates of the event, \<^verbatim>\<open>isOffset: true\<close>.
  \<open>prt\<close> and \<open>bp\<close> are the component's \<^verbatim>\<open>portrait\<close> and \<^verbatim>\<open>boundsPadding\<close>.
\<close>

definition handlePointerMove ::
  "bool \<Rightarrow> bool \<Rightarrow> real \<Rightarrow> real \<Rightarrow> real \<Rightarrow> dom \<Rightarrow> engine \<Rightarrow> engine" where
  "handlePointerMove onPositionChange prt bp pageX pageY d s =
     updateInternalPosition onPositionChange
       \<lparr>coordX = pageX, coordY = pageY, isOffset = True, portrait = prt, boundsPadding = bp\<rparr>
       d s"

text \<open>
  The effect that follows the \<^verbatim>\<open>position\<close> prop. \<open>prevPropPosition\<close> is what
  \<^verbatim>\<open>usePrevious(position)\<close> returned (\<open>None\<close> for \<^verbatim>\<open>undefined\<close>; the hook lives in
  \<^verbatim>\<open>utils\<close> and is taken as a parameter).
\<close>

definition positionEffect ::
  "bool \<Rightarrow> bool \<Rightarrow> real \<Rightarrow> real \<Rightarrow> real option \<Rightarrow> dom \<Rightarrow> engine \<Rightarrow> engine" where
  "positionEffect onPositionChange prt bp position prevPropPosition d s =
     (let nextPosition =
            (if Some position = prevPropPosition then internalPositionPc s else position)
      in updateInternalPosition onPositionChange
           \<lparr>coordX = (rect_width d / 100) * nextPosition,
            coordY = (rect_height d / 100) * nextPosition,
            isOffset = False, portrait = prt, boundsPadding = bp\<rparr>
           d s)"

text \<open>
  \<^verbatim>\<open>handleResize\<close> divides by the width and height that the resize observer reports,
  and these can be \<open>0\<close> while the bounding rectangle is not (a root element with padding
  or a border around an empty content box): JavaScript then computes \<^verbatim>\<open>0 / 0 = NaN\<close> and
  carries on with it. For this caller the numbers are therefore a real or \<^verbatim>\<open>NaN\<close>, and
  the positioning pass is embedded once more over such numbers, line by line as above.
\<close>

datatype jsnum = Num real | NaN

text \<open>
  A binary arithmetic operator, \<^verbatim>\<open>Math.min\<close> or \<^verbatim>\<open>Math.max\<close>: the result is
  \<^verbatim>\<open>NaN\<close> as soon as one operand is. (With \<open>(/)\<close> the divisor has to be non-zero; the
  pass divides only after its first early return, by the zoom scale and by the adjusted
  extent, which are non-zero there.)
\<close>

fun jsLift :: "(real \<Rightarrow> real \<Rightarrow> real) \<Rightarrow> jsnum \<Rightarrow> jsnum \<Rightarrow> jsnum" where
  "jsLift f (Num a) (Num b) = Num (f a b)"
| "jsLift f a b = NaN"

text \<open>\<^verbatim>\<open>===\<close> on numbers: \<^verbatim>\<open>NaN\<close> is equal to nothing, not even to itself.\<close>

fun jsEq :: "jsnum \<Rightarrow> jsnum \<Rightarrow> bool" where
  "jsEq (Num a) (Num b) = (a = b)"
| "jsEq a b = False"

record jsProps =
  jsX :: jsnum
  jsY :: jsnum
  jsIsOffset :: bool
  jsPortrait :: bool
  jsBoundsPadding :: real

datatype jsClip = JsRect "jsnum option" "jsnum option" "jsnum option" "jsnum option"

datatype jsTransform = JsTranslate3d jsnum jsnum jsnum

datatype jsEffect =
  JsStyleClip jsClip
| JsStyleTransform jsTransform
| JsOnPositionChange jsnum

record jsEngine =
  jsInternalPositionPc :: jsnum
  jsDidSyncBounds :: bool
  jsEffects :: "jsEffect list"

definition jsPositionPx :: "jsProps \<Rightarrow> dom \<Rightarrow> jsnum" where
  "jsPositionPx a d =
     jsLift min
       (jsLift max
          (if jsPortrait a
           then (if jsIsOffset a
                 then jsLift (-) (jsLift (-) (jsY a) (Num (rect_top d))) (Num (pageYOffset d))
                 else jsY a)
           else (if jsIsOffset a
                 then jsLift (-) (jsLift (-) (jsX a) (Num (rect_left d))) (Num (pageXOffset d))
                 else jsX a))
          (Num 0))
       (Num (if jsPortrait a then rect_height d else rect_width d))"

definition jsZoomScale :: "jsProps \<Rightarrow> dom \<Rightarrow> real" where
  "jsZoomScale a d =
     (if jsPortrait a
      then rect_height d / js_or (offsetHeight d) 1
      else rect_width d / js_or (offsetWidth d) 1)"

definition jsAdjustedPosition :: "jsProps \<Rightarrow> dom \<Rightarrow> jsnum" where
  "jsAdjustedPosition a d = jsLift (/) (jsPositionPx a d) (Num (jsZoomScale a d))"

definition jsAdjustedWidth :: "jsProps \<Rightarrow> dom \<Rightarrow> real" where
  "jsAdjustedWidth a d = rect_width d / jsZoomScale a d"

definition jsAdjustedHeight :: "jsProps \<Rightarrow> dom \<Rightarrow> real" where
  "jsAdjustedHeight a d = rect_height d / jsZoomScale a d"

definition jsNextInternalPositionPc :: "jsProps \<Rightarrow> dom \<Rightarrow> jsnum" where
  "jsNextInternalPositionPc a d =
     jsLift (*)
       (jsLift (/) (jsAdjustedPosition a d)
          (Num (if jsPortrait a then jsAdjustedHeight a d else jsAdjustedWidth a d)))
       (Num 100)"

definition jsPositionMeetsBounds :: "jsProps \<Rightarrow> dom \<Rightarrow> bool" where
  "jsPositionMeetsBounds a d =
     (if jsPortrait a
      then jsEq (jsAdjustedPosition a d) (Num 0)
           \<or> jsEq (jsAdjustedPosition a d) (Num (jsAdjustedHeight a d))
      else jsEq (jsAdjustedPosition a d) (Num 0)
           \<or> jsEq (jsAdjustedPosition a d) (Num (jsAdjustedWidth a d)))"

definition jsCanSkipPositionPc :: "jsProps \<Rightarrow> dom \<Rightarrow> jsEngine \<Rightarrow> bool" where
  "jsCanSkipPositionPc a d s =
     (jsEq (jsNextInternalPositionPc a d) (jsInternalPositionPc s) \<and>
      (jsEq (jsInternalPositionPc s) (Num 0) \<or> jsEq (jsInternalPositionPc s) (Num 100)))"

definition jsClampedPx :: "jsProps \<Rightarrow> dom \<Rightarrow> jsnum" where
  "jsClampedPx a d =
     jsLift min
       (jsLift max (jsAdjustedPosition a d) (Num (0 + jsBoundsPadding a)))
       (Num ((if jsPortrait a then jsAdjustedHeight a d else jsAdjustedWidth a d)
             - jsBoundsPadding a))"

definition jsClipStyle :: "jsProps \<Rightarrow> dom \<Rightarrow> jsClip" where
  "jsClipStyle a d =
     (if jsPortrait a
      then JsRect None None (Some (jsClampedPx a d)) None
      else JsRect None (Some (jsClampedPx a d)) None None)"

definition jsTransformStyle :: "jsProps \<Rightarrow> dom \<Rightarrow> jsTransform" where
  "jsTransformStyle a d =
     (if jsPortrait a
      then JsTranslate3d (Num 0) (jsClampedPx a d) (Num 0)
      else JsTranslate3d (jsClampedPx a d) (Num 0) (Num 0))"

definition jsUpdateInternalPosition ::
  "bool \<Rightarrow> jsProps \<Rightarrow> dom \<Rightarrow> jsEngine \<Rightarrow> jsEngine" where
  "jsUpdateInternalPosition onPositionChange a d s =
     (if rect_width d = 0 \<or> rect_height d = 0 then s
      else if jsDidSyncBounds s \<and> jsCanSkipPositionPc a d s \<and> jsPositionMeetsBounds a d
      then s
      else s\<lparr>jsDidSyncBounds := True,
             jsInternalPositionPc := jsNextInternalPositionPc a d,
             jsEffects := jsEffects s @
               [JsStyleClip (jsClipStyle a d), JsStyleTransform (jsTransformStyle a d)] @
               (if onPositionChange
                then [JsOnPositionChange (jsNextInternalPositionPc a d)] else [])\<rparr>)"

text \<open>
  The coordinate that \<^verbatim>\<open>handleResize\<close> computes for one axis,
  \<^verbatim>\<open>((sz / 100) * internalPositionPc.current * scaled) / sz\<close>, where \<open>sz\<close> is the
  observer's width or height. When \<open>sz\<close> is \<open>0\<close> the dividend is
  \<open>0 * internalPositionPc.current * scaled\<close>, that is \<open>0\<close> or \<^verbatim>\<open>NaN\<close>, and both
  \<^verbatim>\<open>0 / 0\<close> and \<^verbatim>\<open>NaN / 0\<close> are \<^verbatim>\<open>NaN\<close>.
\<close>

definition resizeDividend :: "real \<Rightarrow> jsnum \<Rightarrow> real \<Rightarrow> jsnum" where
  "resizeDividend sz pc scaled = jsLift (*) (jsLift (*) (Num (sz / 100)) pc) (Num scaled)"

definition resizeCoordinate :: "real \<Rightarrow> jsnum \<Rightarrow> real \<Rightarrow> jsnum" where
  "resizeCoordinate sz pc scaled =
     (if sz = 0 then NaN else jsLift (/) (resizeDividend sz pc scaled) (Num sz))"

text \<open>
  \<^verbatim>\<open>handleResize\<close> itself. \<open>width\<close> and \<open>height\<close> are the sizes reported by the
  resize observer; \<^verbatim>\<open>scaledWidth\<close> and \<^verbatim>\<open>scaledHeight\<close> come from the bounding
  rectangle.
\<close>

definition handleResize ::
  "bool \<Rightarrow> bool \<Rightarrow> real \<Rightarrow> real \<Rightarrow> real \<Rightarrow> dom \<Rightarrow> jsEngine \<Rightarrow> jsEngine" where
  "handleResize onPositionChange prt bp width height d s =
     (let scaledWidth = rect_width d; scaledHeight = rect_height d
      in jsUpdateInternalPosition onPositionChange
           \<lparr>jsX = resizeCoordinate width (jsInternalPositionPc s) scaledWidth,
            jsY = resizeCoordinate height (jsInternalPositionPc s) scaledHeight,
            jsIsOffset = False, jsPortrait = prt, jsBoundsPadding = bp\<rparr>
           d s)"

text \<open>
  A state, arguments and effects over the reals, read as ones over numbers that may be
  \<^verbatim>\<open>NaN\<close>.
\<close>

definition fromProps :: "UpdateInternalPositionProps \<Rightarrow> jsProps" where
  "fromProps p =
     \<lparr>jsX = Num (coordX p), jsY = Num (coordY p), jsIsOffset = isOffset p,
      jsPortrait = portrait p, jsBoundsPadding = boundsPadding p\<rparr>"

fun fromClip :: "css_clip \<Rightarrow> jsClip" where
  "fromClip (Rect t r b l) =
     JsRect (map_option Num t) (map_option Num r) (map_option Num b) (map_option Num l)"

fun fromTransform :: "css_transform \<Rightarrow> jsTransform" where
  "fromTransform (Translate3d a b c) = JsTranslate3d (Num a) (Num b) (Num c)"

fun fromEffect :: "effect \<Rightarrow> jsEffect" where
  "fromEffect (StyleClip c) = JsStyleClip (fromClip c)"
| "fromEffect (StyleTransform t) = JsStyleTransform (fromTransform t)"
| "fromEffect (OnPositionChange v) = JsOnPositionChange (Num v)"

definition fromEngine :: "engine \<Rightarrow> jsEngine" where
  "fromEngine s =
     \<lparr>jsInternalPositionPc = Num (internalPositionPc s),
      jsDidSyncBounds = didSyncBounds s,
      jsEffects = map fromEffect (effects s)\<rparr>"


text \<open>The pixel carried by a written style value, along the axis of the orientation.\<close>

fun clipPx :: "bool \<Rightarrow> css_clip \<Rightarrow> real option" where
  "clipPx prt (Rect t r b l) = (if prt then b else r)"

fun offsetPx :: "bool \<Rightarrow> css_transform \<Rightarrow> real" where
  "offsetPx prt (Translate3d a b c) = (if prt then b else a)"

text \<open>What one pass added to the log of effects.\<close>

definition written ::
  "bool \<Rightarrow> UpdateInternalPositionProps \<Rightarrow> dom \<Rightarrow> engine \<Rightarrow> effect list" where
  "written onPositionChange p d s =
     drop (length (effects s)) (effects (updateInternalPosition onPositionChange p d s))"

text \<open>The extent along the active axis: true (bounding rectangle) and scale-corrected.\<close>

definition extent :: "UpdateInternalPositionProps \<Rightarrow> dom \<Rightarrow> real" where
  "extent p d = (if portrait p then rect_height d else rect_width d)"

definition adjustedExtent :: "UpdateInternalPositionProps \<Rightarrow> dom \<Rightarrow> real" where
  "adjustedExtent p d = (if portrait p then adjustedHeight p d else adjustedWidth p d)"

text \<open>A pass is suppressed when it takes the second early return.\<close>

definition suppressed :: "UpdateInternalPositionProps \<Rightarrow> dom \<Rightarrow> engine \<Rightarrow> bool" where
  "suppressed p d s =
     (didSyncBounds s \<and> nextInternalPositionPc p d = internalPositionPc s \<and>
      (internalPositionPc s = 0 \<or> internalPositionPc s = 100) \<and>
      (adjustedPosition p d = 0 \<or> adjustedPosition p d = adjustedExtent p d))"

subsection \<open>The window binding during a drag\<close>

text \<open>
  The effect \<^verbatim>\<open>// Allow drag outside of container while pointer is still down\<close>.
  A listener is an event type with a handler. \<^verbatim>\<open>handlePointerUp\<close> is memoised with no
  dependency and is one function for the life of the component; \<^verbatim>\<open>handlePointerMove\<close>
  is a new function whenever one of its dependencies changes, which the generation
  number stands for.
\<close>

datatype handler = HandlePointerMove nat | HandlePointerUp

type_synonym listener = "string \<times> handler"

text \<open>
  \<open>windowListeners\<close> is the listener list of \<^verbatim>\<open>window\<close> as far as this component is
  concerned. \<^verbatim>\<open>addEventListener\<close> is modelled as appending, also when the listener is
  already there (the browser would drop the duplicate), so that a double attachment
  shows up as a duplicate; \<^verbatim>\<open>removeEventListener\<close> removes one occurrence.
\<close>

record binding =
  isDragging :: bool
  hasWindowBinding :: bool
  handlerGen :: nat
  windowListeners :: "listener list"

definition addEventListener :: "listener \<Rightarrow> binding \<Rightarrow> binding" where
  "addEventListener l b = b\<lparr>windowListeners := windowListeners b @ [l]\<rparr>"

definition removeEventListener :: "listener \<Rightarrow> binding \<Rightarrow> binding" where
  "removeEventListener l b = b\<lparr>windowListeners := remove1 l (windowListeners b)\<rparr>"

text \<open>
  The body of the effect and the cleanup it returns; \<open>g\<close> is the generation of the
  \<^verbatim>\<open>handlePointerMove\<close> the closure holds.
\<close>

definition bindingEffect :: "nat \<Rightarrow> binding \<Rightarrow> binding" where
  "bindingEffect g b =
     (if isDragging b \<and> \<not> hasWindowBinding b
      then (addEventListener (''touchend'', HandlePointerUp)
             (addEventListener (''touchmove'', HandlePointerMove g)
               (addEventListener (''mouseup'', HandlePointerUp)
                 (addEventListener (''mousemove'', HandlePointerMove g) b))))
           \<lparr>hasWindowBinding := True\<rparr>
      else b)"

definition bindingCleanup :: "nat \<Rightarrow> binding \<Rightarrow> binding" where
  "bindingCleanup g b =
     (if hasWindowBinding b
      then (removeEventListener (''touchend'', HandlePointerUp)
             (removeEventListener (''touchmove'', HandlePointerMove g)
               (removeEventListener (''mouseup'', HandlePointerUp)
                 (removeEventListener (''mousemove'', HandlePointerMove g) b))))
           \<lparr>hasWindowBinding := False\<rparr>
      else b)"

text \<open>
  React's contract for \<^verbatim>\<open>useEffect\<close> with the dependencies
  \<^verbatim>\<open>[handlePointerMove, handlePointerUp, isDragging]\<close>: after a render in which no
  dependency changed nothing runs; otherwise the cleanup of the previous run is called and
  then the body, with the new values.
\<close>

definition commit :: "bool \<Rightarrow> nat \<Rightarrow> binding \<Rightarrow> binding" where
  "commit dragging g b =
     (if dragging = isDragging b \<and> g = handlerGen b then b
      else bindingEffect g
             (bindingCleanup (handlerGen b) (b\<lparr>isDragging := dragging, handlerGen := g\<rparr>)))"

text \<open>
  What can happen to the component between two renders. \<open>PointerDown c\<close> is a
  \<^verbatim>\<open>mousedown\<close> or \<^verbatim>\<open>touchstart\<close> on the interactive target
  (\<^verbatim>\<open>setIsDragging(true)\<close>); \<open>c\<close> tells whether the same render also brought a new
  \<^verbatim>\<open>handlePointerMove\<close> (the positioning pass of the handler may have set
  \<^verbatim>\<open>didSyncBounds\<close>). \<open>PointerUp\<close> is a \<^verbatim>\<open>mouseup\<close> or \<^verbatim>\<open>touchend\<close> on the
  window, which reaches \<^verbatim>\<open>handlePointerUp\<close> only through the window listener.
  \<open>MouseLeave\<close> is the hover handler, which calls \<^verbatim>\<open>handlePointerUp\<close> only when not
  dragging. \<open>HandlerChange\<close> is a render with a new \<^verbatim>\<open>handlePointerMove\<close> and nothing
  else.
\<close>

datatype event = PointerDown bool | PointerUp | MouseLeave | HandlerChange

definition nextGen :: "bool \<Rightarrow> binding \<Rightarrow> nat" where
  "nextGen c b = (if c then Suc (handlerGen b) else handlerGen b)"

fun step :: "event \<Rightarrow> binding \<Rightarrow> binding" where
  "step (PointerDown c) b = commit True (nextGen c b) b"
| "step PointerUp b =
     (if (''mouseup'', HandlePointerUp) \<in> set (windowListeners b)
         \<or> (''touchend'', HandlePointerUp) \<in> set (windowListeners b)
      then commit False (handlerGen b) b else b)"
| "step MouseLeave b = (if isDragging b then b else commit False (handlerGen b) b)"
| "step HandlerChange b = commit (isDragging b) (Suc (handlerGen b)) b"

fun steps :: "event list \<Rightarrow> binding \<Rightarrow> binding" where
  "steps [] b = b"
| "steps (e # es) b = steps es (step e b)"

text \<open>The binding right after mount: idle, nothing bound.\<close>

definition mounted :: binding where
  "mounted = \<lparr>isDragging = False, hasWindowBinding = False, handlerGen = 0,
              windowListeners = []\<rparr>"

text \<open>The four listeners of a drag, in the order in which the effect adds them.\<close>

definition dragListeners :: "nat \<Rightarrow> listener list" where
  "dragListeners g =
     [(''mousemove'', HandlePointerMove g), (''mouseup'', HandlePointerUp),
      (''touchmove'', HandlePointerMove g), (''touchend'', HandlePointerUp)]"

text \<open>
  The invariant of the binding: the flag \<^verbatim>\<open>hasWindowBinding\<close> tells whether the
  component is dragging, and the window holds the four listeners of the current handlers
  while dragging and none of them otherwise.
\<close>

definition bindingInvariant :: "binding \<Rightarrow> bool" where
  "bindingInvariant b =
     (hasWindowBinding b = isDragging b \<and>
      windowListeners b = (if isDragging b then dragListeners (handlerGen b) else []))"

subsection \<open>Reading the log of effects\<close>

text \<open>
  The pixels written to the clip, the pixels written to the handle offset and the
  percentages handed to \<^verbatim>\<open>onPositionChange\<close>, each in the order of the log.
\<close>

fun clipWrites :: "bool \<Rightarrow> effect list \<Rightarrow> real option list" where
  "clipWrites prt [] = []"
| "clipWrites prt (StyleClip c # es) = clipPx prt c # clipWrites prt es"
| "clipWrites prt (e # es) = clipWrites prt es"

fun offsetWrites :: "bool \<Rightarrow> effect list \<Rightarrow> real list" where
  "offsetWrites prt [] = []"
| "offsetWrites prt (StyleTransform t # es) = offsetPx prt t # offsetWrites prt es"
| "offsetWrites prt (e # es) = offsetWrites prt es"

fun notifications :: "effect list \<Rightarrow> real list" where
  "notifications [] = []"
| "notifications (OnPositionChange v # es) = v # notifications es"
| "notifications (e # es) = notifications es"

subsection \<open>Concrete documents and arguments\<close>

text \<open>A container of the given width and height at the origin of an unscrolled page, unscaled.\<close>

definition plainDom :: "real \<Rightarrow> real \<Rightarrow> dom" where
  "plainDom w h =
     \<lparr>rect_top = 0, rect_left = 0, rect_width = w, rect_height = h,
      offsetWidth = w, offsetHeight = h, pageXOffset = 0, pageYOffset = 0\<rparr>"

text \<open>Container-relative arguments (\<^verbatim>\<open>isOffset\<close> absent).\<close>

definition relativeArgs :: "real \<Rightarrow> real \<Rightarrow> bool \<Rightarrow> real \<Rightarrow> UpdateInternalPositionProps" where
  "relativeArgs a b prt bp =
     \<lparr>coordX = a, coordY = b, isOffset = False, portrait = prt, boundsPadding = bp\<rparr>"

subsection \<open>Basic facts\<close>

lemma zoomScale_nonzero:
  "rect_width d \<noteq> 0 \<Longrightarrow> rect_height d \<noteq> 0 \<Longrightarrow> zoomScale p d \<noteq> 0"
  by (simp add: zoomScale_def js_or_def)

lemma updateInternalPosition_zero:
  "rect_width d = 0 \<or> rect_height d = 0 \<Longrightarrow> updateInternalPosition cb p d s = s"
  by (simp add: updateInternalPosition_def)

lemma adjustedExtent_nonzero:
  "rect_width d \<noteq> 0 \<Longrightarrow> rect_height d \<noteq> 0 \<Longrightarrow> adjustedExtent p d \<noteq> 0"
  by (simp add: adjustedExtent_def adjustedWidth_def adjustedHeight_def zoomScale_def js_or_def)

lemma nextInternalPositionPc_eq:
  assumes "rect_width d \<noteq> 0" "rect_height d \<noteq> 0"
  shows "nextInternalPositionPc p d = positionPx p d / extent p d * 100"
proof -
  have z: "zoomScale p d \<noteq> 0" using assms by (rule zoomScale_nonzero)
  show ?thesis
    using z assms
    by (simp add: nextInternalPositionPc_def adjustedPosition_def adjustedHeight_def
        adjustedWidth_def extent_def)
qed


lemma extent_nonzero:
  "rect_width d \<noteq> 0 \<Longrightarrow> rect_height d \<noteq> 0 \<Longrightarrow> extent p d \<noteq> 0"
  by (simp add: extent_def)



lemma suppressed_iff:
  "suppressed p d s \<longleftrightarrow> didSyncBounds s \<and> canSkipPositionPc p d s \<and> positionMeetsBounds p d"
  by (auto simp: suppressed_def canSkipPositionPc_def positionMeetsBounds_def adjustedExtent_def)

lemma updateInternalPosition_suppressed:
  "suppressed p d s \<Longrightarrow> updateInternalPosition cb p d s = s"
  by (simp add: updateInternalPosition_def suppressed_iff)

lemma updateInternalPosition_updated:
  "rect_width d \<noteq> 0 \<Longrightarrow> rect_height d \<noteq> 0 \<Longrightarrow> \<not> suppressed p d s \<Longrightarrow>
   updateInternalPosition cb p d s =
     s\<lparr>didSyncBounds := True,
       internalPositionPc := nextInternalPositionPc p d,
       effects := effects s @
         [StyleClip (clipStyle p d), StyleTransform (transformStyle p d)] @
         (if cb then [OnPositionChange (nextInternalPositionPc p d)] else [])\<rparr>"
  by (auto simp: updateInternalPosition_def suppressed_iff)

lemma updated_neq:
  "rect_width d \<noteq> 0 \<Longrightarrow> rect_height d \<noteq> 0 \<Longrightarrow> \<not> suppressed p d s \<Longrightarrow>
   updateInternalPosition cb p d s \<noteq> s"
proof
  assume a: "rect_width d \<noteq> 0" "rect_height d \<noteq> 0" "\<not> suppressed p d s"
    and e: "updateInternalPosition cb p d s = s"
  have "length (effects (updateInternalPosition cb p d s)) > length (effects s)"
    by (simp add: updateInternalPosition_updated [OF a])
  with e show False by simp
qed

lemma written_suppressed:
  "suppressed p d s \<Longrightarrow> written cb p d s = []"
  by (simp add: written_def updateInternalPosition_suppressed)

lemma written_updated:
  "rect_width d \<noteq> 0 \<Longrightarrow> rect_height d \<noteq> 0 \<Longrightarrow> \<not> suppressed p d s \<Longrightarrow>
   written cb p d s =
     [StyleClip (clipStyle p d), StyleTransform (transformStyle p d)] @
     (if cb then [OnPositionChange (nextInternalPositionPc p d)] else [])"
  by (simp add: written_def updateInternalPosition_updated)

lemma adjustedPosition_eq_extent:
  assumes "rect_width d \<noteq> 0" "rect_height d \<noteq> 0"
  shows "adjustedPosition p d = adjustedExtent p d \<longleftrightarrow> positionPx p d = extent p d"
proof -
  have z: "zoomScale p d \<noteq> 0" using assms by (rule zoomScale_nonzero)
  then show ?thesis
    by (simp add: adjustedPosition_def adjustedExtent_def adjustedWidth_def
        adjustedHeight_def extent_def)
qed

lemma adjustedPosition_eq_0:
  assumes "rect_width d \<noteq> 0" "rect_height d \<noteq> 0"
  shows "adjustedPosition p d = 0 \<longleftrightarrow> positionPx p d = 0"
proof -
  have z: "zoomScale p d \<noteq> 0" using assms by (rule zoomScale_nonzero)
  then show ?thesis by (simp add: adjustedPosition_def)
qed

section \<open>Degenerate geometry\<close>

text \<open>
  Claim C8. When the measured width or height of the container is \<open>0\<close>, the positioning
  pass returns at once: the state (stored percentage, synchronisation flag, log of style
  writes and notifications) is exactly what it was, and nothing is written. The skip
  leaves no trace, so a later pass behaves as if the skipped one had never been made; in
  particular a later pass with a non-zero geometry on a state that is not yet synchronised
  sets the flag, stores its percentage, writes both styles and notifies the host.
\<close>

theorem zero_geometry_skips:
  assumes "rect_width d = 0 \<or> rect_height d = 0"
  shows "updateInternalPosition cb p d s = s
       \<and> written cb p d s = []
       \<and> updateInternalPosition cb p' d' (updateInternalPosition cb p d s)
           = updateInternalPosition cb p' d' s
       \<and> (rect_width d' \<noteq> 0 \<and> rect_height d' \<noteq> 0 \<and> \<not> didSyncBounds s \<longrightarrow>
            didSyncBounds (updateInternalPosition cb p' d' (updateInternalPosition cb p d s))
          \<and> internalPositionPc (updateInternalPosition cb p' d' (updateInternalPosition cb p d s))
              = nextInternalPositionPc p' d'
          \<and> written cb p' d' (updateInternalPosition cb p d s)
              = [StyleClip (clipStyle p' d'), StyleTransform (transformStyle p' d')] @
                (if cb then [OnPositionChange (nextInternalPositionPc p' d')] else []))"
proof -
  have skip: "updateInternalPosition cb p d s = s"
    using assms by (rule updateInternalPosition_zero)
  have w: "written cb p d s = []"
    by (simp add: written_def skip)
  have later: "rect_width d' \<noteq> 0 \<and> rect_height d' \<noteq> 0 \<and> \<not> didSyncBounds s \<longrightarrow>
      didSyncBounds (updateInternalPosition cb p' d' s)
    \<and> internalPositionPc (updateInternalPosition cb p' d' s) = nextInternalPositionPc p' d'
    \<and> written cb p' d' s
        = [StyleClip (clipStyle p' d'), StyleTransform (transformStyle p' d')] @
          (if cb then [OnPositionChange (nextInternalPositionPc p' d')] else [])"
  proof (intro impI, elim conjE)
    assume a: "rect_width d' \<noteq> 0" "rect_height d' \<noteq> 0" and n: "\<not> didSyncBounds s"
    from n have ns: "\<not> suppressed p' d' s" by (simp add: suppressed_def)
    show "didSyncBounds (updateInternalPosition cb p' d' s)
    \<and> internalPositionPc (updateInternalPosition cb p' d' s) = nextInternalPositionPc p' d'
    \<and> written cb p' d' s
        = [StyleClip (clipStyle p' d'), StyleTransform (transformStyle p' d')] @
          (if cb then [OnPositionChange (nextInternalPositionPc p' d')] else [])"
      using written_updated [OF a ns] updateInternalPosition_updated [OF a ns] by simp
  qed
  show ?thesis using skip w later by simp
qed

theorem zero_geometry_skips_witness:
  "(rect_width (plainDom 0 150) = 0 \<or> rect_height (plainDom 0 150) = 0)
   \<and> updateInternalPosition True (relativeArgs 75 0 False 0) (plainDom 0 150) (mount 50)
       = mount 50
   \<and> internalPositionPc
        (updateInternalPosition True (relativeArgs 75 0 False 0) (plainDom 300 150)
          (updateInternalPosition True (relativeArgs 75 0 False 0) (plainDom 0 150) (mount 50)))
       = nextInternalPositionPc (relativeArgs 75 0 False 0) (plainDom 300 150)"
proof -
  have h: "rect_width (plainDom 0 150) = 0 \<or> rect_height (plainDom 0 150) = 0"
    by (simp add: plainDom_def)
  have g: "rect_width (plainDom 300 150) \<noteq> 0 \<and> rect_height (plainDom 300 150) \<noteq> 0
           \<and> \<not> didSyncBounds (mount 50)"
    by (simp add: plainDom_def mount_def)
  show ?thesis
    using h g
      zero_geometry_skips [OF h, where cb = True and p = "relativeArgs 75 0 False 0"
        and s = "mount 50" and p' = "relativeArgs 75 0 False 0" and d' = "plainDom 300 150"]
    by blast
qed

section \<open>The suppression rule\<close>

lemma nextInternalPositionPc_at_extent:
  assumes "rect_width d \<noteq> 0" "rect_height d \<noteq> 0" "positionPx p d = extent p d"
  shows "nextInternalPositionPc p d = 100"
  using assms extent_nonzero [of d p] by (simp add: nextInternalPositionPc_eq)

lemma mount_not_suppressed: "\<not> suppressed p d (mount position)"
  by (simp add: suppressed_def mount_def)

lemma pass_at_extent:
  assumes nz: "rect_width d \<noteq> 0" "rect_height d \<noteq> 0" and e: "positionPx p d = extent p d"
  shows "didSyncBounds (updateInternalPosition cb p d s)
       \<and> internalPositionPc (updateInternalPosition cb p d s) = 100"
proof (cases "suppressed p d s")
  case True
  then have "updateInternalPosition cb p d s = s"
    by (rule updateInternalPosition_suppressed)
  moreover from True have "didSyncBounds s" "internalPositionPc s = nextInternalPositionPc p d"
    by (simp_all add: suppressed_def)
  ultimately show ?thesis
    using nextInternalPositionPc_at_extent [OF nz e] by simp
next
  case False
  show ?thesis
    using nextInternalPositionPc_at_extent [OF nz e]
    by (simp add: updateInternalPosition_updated [OF nz False])
qed

lemma suppressed_at_extent:
  assumes nz: "rect_width d \<noteq> 0" "rect_height d \<noteq> 0" and e: "positionPx p d = extent p d"
    and s: "didSyncBounds s" "internalPositionPc s = 100"
  shows "suppressed p d s"
  using s nextInternalPositionPc_at_extent [OF nz e] adjustedPosition_eq_extent [OF nz, of p] e
  by (simp add: suppressed_def)

text \<open>
  Claim C1. For a container of non-zero width and height, a positioning pass leaves the
  state as it was (stored percentage unchanged, no style written, no notification) exactly
  when the synchronisation flag is already set, the newly computed percentage equals the
  stored one, that value is \<open>0\<close> or \<open>100\<close>, and the scale-corrected pixel is \<open>0\<close>
  or the scale-corrected extent. In every other case the pass sets the flag, stores the new
  percentage, writes both styles and notifies the host if it listens. The first pass after
  mount is therefore never suppressed; and once a pass has run with the pixel clamped at
  the extent, the percentage is \<open>100\<close> and any further pass whose pixel is clamped at
  the extent changes nothing and notifies nobody.
\<close>

theorem suppression_rule:
  assumes "rect_width d \<noteq> 0" and "rect_height d \<noteq> 0"
  shows
    "((updateInternalPosition cb p d s = s) =
        (didSyncBounds s
         \<and> nextInternalPositionPc p d = internalPositionPc s
         \<and> (internalPositionPc s = 0 \<or> internalPositionPc s = 100)
         \<and> (adjustedPosition p d = 0 \<or> adjustedPosition p d = adjustedExtent p d)))
     \<and> (updateInternalPosition cb p d s = s \<longrightarrow> written cb p d s = [])
     \<and> (updateInternalPosition cb p d s \<noteq> s \<longrightarrow>
          didSyncBounds (updateInternalPosition cb p d s)
          \<and> internalPositionPc (updateInternalPosition cb p d s) = nextInternalPositionPc p d
          \<and> written cb p d s =
              [StyleClip (clipStyle p d), StyleTransform (transformStyle p d)] @
              (if cb then [OnPositionChange (nextInternalPositionPc p d)] else []))
     \<and> updateInternalPosition cb p d (mount position) \<noteq> mount position
     \<and> (positionPx p d = extent p d \<and> positionPx p' d' = extent p' d'
          \<and> rect_width d' \<noteq> 0 \<and> rect_height d' \<noteq> 0 \<longrightarrow>
          internalPositionPc (updateInternalPosition cb p d s) = 100
          \<and> updateInternalPosition cb p' d' (updateInternalPosition cb p d s)
              = updateInternalPosition cb p d s
          \<and> notifications (written cb p' d' (updateInternalPosition cb p d s)) = [])"
proof -
  note nz = assms
  have iff: "(updateInternalPosition cb p d s = s) = suppressed p d s"
    using updated_neq [OF nz, of p s cb] updateInternalPosition_suppressed [of p d s cb]
    by blast
  have noop: "updateInternalPosition cb p d s = s \<longrightarrow> written cb p d s = []"
    by (simp add: written_def)
  have upd: "updateInternalPosition cb p d s \<noteq> s \<longrightarrow>
          didSyncBounds (updateInternalPosition cb p d s)
          \<and> internalPositionPc (updateInternalPosition cb p d s) = nextInternalPositionPc p d
          \<and> written cb p d s =
              [StyleClip (clipStyle p d), StyleTransform (transformStyle p d)] @
              (if cb then [OnPositionChange (nextInternalPositionPc p d)] else [])"
  proof
    assume "updateInternalPosition cb p d s \<noteq> s"
    with iff have ns: "\<not> suppressed p d s" by simp
    show "didSyncBounds (updateInternalPosition cb p d s)
          \<and> internalPositionPc (updateInternalPosition cb p d s) = nextInternalPositionPc p d
          \<and> written cb p d s =
              [StyleClip (clipStyle p d), StyleTransform (transformStyle p d)] @
              (if cb then [OnPositionChange (nextInternalPositionPc p d)] else [])"
      using written_updated [OF nz ns] updateInternalPosition_updated [OF nz ns] by simp
  qed
  have first: "updateInternalPosition cb p d (mount position) \<noteq> mount position"
    using nz mount_not_suppressed by (rule updated_neq)
  have again: "positionPx p d = extent p d \<and> positionPx p' d' = extent p' d'
          \<and> rect_width d' \<noteq> 0 \<and> rect_height d' \<noteq> 0 \<longrightarrow>
          internalPositionPc (updateInternalPosition cb p d s) = 100
          \<and> updateInternalPosition cb p' d' (updateInternalPosition cb p d s)
              = updateInternalPosition cb p d s
          \<and> notifications (written cb p' d' (updateInternalPosition cb p d s)) = []"
  proof (intro impI, elim conjE)
    assume e: "positionPx p d = extent p d" and e': "positionPx p' d' = extent p' d'"
      and nz': "rect_width d' \<noteq> 0" "rect_height d' \<noteq> 0"
    let ?s1 = "updateInternalPosition cb p d s"
    from pass_at_extent [OF nz e, of cb s]
    have s1: "didSyncBounds ?s1" "internalPositionPc ?s1 = 100" by simp_all
    have "suppressed p' d' ?s1" using nz' e' s1 by (rule suppressed_at_extent)
    then have "updateInternalPosition cb p' d' ?s1 = ?s1" "written cb p' d' ?s1 = []"
      by (simp_all add: updateInternalPosition_suppressed written_suppressed)
    with s1 show "internalPositionPc ?s1 = 100
          \<and> updateInternalPosition cb p' d' ?s1 = ?s1
          \<and> notifications (written cb p' d' ?s1) = []"
      by simp
  qed
  from iff have iff': "(updateInternalPosition cb p d s = s) =
        (didSyncBounds s
         \<and> nextInternalPositionPc p d = internalPositionPc s
         \<and> (internalPositionPc s = 0 \<or> internalPositionPc s = 100)
         \<and> (adjustedPosition p d = 0 \<or> adjustedPosition p d = adjustedExtent p d))"
    by (simp only: suppressed_def)
  from iff' noop upd first again show ?thesis by (intro conjI)
qed

theorem suppression_rule_witness:
  "rect_width (plainDom 300 150) \<noteq> 0 \<and> rect_height (plainDom 300 150) \<noteq> 0
   \<and> handlePointerMove True False 0 400 20 (plainDom 300 150) (mount 50) \<noteq> mount 50
   \<and> internalPositionPc
        (handlePointerMove True False 0 400 20 (plainDom 300 150) (mount 50)) = 100
   \<and> handlePointerMove True False 0 500 20 (plainDom 300 150)
        (handlePointerMove True False 0 400 20 (plainDom 300 150) (mount 50))
       = handlePointerMove True False 0 400 20 (plainDom 300 150) (mount 50)"
proof -
  let ?p = "\<lparr>coordX = 400, coordY = 20, isOffset = True, portrait = False,
            boundsPadding = 0\<rparr>"
  let ?p' = "\<lparr>coordX = 500, coordY = 20, isOffset = True, portrait = False,
            boundsPadding = 0\<rparr>"
  have w: "rect_width (plainDom 300 150) \<noteq> 0" and h: "rect_height (plainDom 300 150) \<noteq> 0"
    by (simp_all add: plainDom_def)
  have e: "positionPx ?p (plainDom 300 150) = extent ?p (plainDom 300 150)"
    and e': "positionPx ?p' (plainDom 300 150) = extent ?p' (plainDom 300 150)"
    by (simp_all add: positionPx_def extent_def plainDom_def)
  show ?thesis
    unfolding handlePointerMove_def
    using w h e e'
      suppression_rule [OF w h, where cb = True and p = ?p and s = "mount 50"
        and position = 50 and p' = ?p' and d' = "plainDom 300 150"]
    by blast
qed

section \<open>The clamp invariant\<close>


lemma pass_synced:
  assumes nz: "rect_width d \<noteq> 0" "rect_height d \<noteq> 0"
  shows "didSyncBounds (updateInternalPosition cb p d s)"
proof (cases "suppressed p d s")
  case True
  then show ?thesis by (simp add: updateInternalPosition_suppressed suppressed_def)
next
  case False
  show ?thesis by (simp add: updateInternalPosition_updated [OF nz False])
qed

lemma pass_keeps_synced:
  "didSyncBounds s \<Longrightarrow> didSyncBounds (updateInternalPosition cb p d s)"
  by (simp add: updateInternalPosition_def)







section \<open>The projected outputs\<close>

lemma clipWrites_updated:
  assumes "rect_width d \<noteq> 0" "rect_height d \<noteq> 0" "\<not> suppressed p d s"
  shows "clipWrites (portrait p) (written cb p d s) = [Some (clampedPx p d)]"
  by (simp add: written_updated [OF assms] clipStyle_def)

lemma offsetWrites_updated:
  assumes "rect_width d \<noteq> 0" "rect_height d \<noteq> 0" "\<not> suppressed p d s"
  shows "offsetWrites (portrait p) (written cb p d s) = [clampedPx p d]"
  by (simp add: written_updated [OF assms] transformStyle_def)

lemma notifications_updated:
  assumes "rect_width d \<noteq> 0" "rect_height d \<noteq> 0" "\<not> suppressed p d s"
  shows "notifications (written cb p d s)
           = (if cb then [nextInternalPositionPc p d] else [])"
  by (simp add: written_updated [OF assms])

lemma adjustedExtent_unscaled:
  assumes "rect_width d \<noteq> 0" "rect_height d \<noteq> 0"
    and "offsetWidth d = rect_width d" "offsetHeight d = rect_height d"
  shows "zoomScale p d = 1" and "adjustedExtent p d = extent p d"
    and "adjustedPosition p d = positionPx p d"
  using assms
  by (simp_all add: zoomScale_def js_or_def adjustedExtent_def adjustedWidth_def
      adjustedHeight_def extent_def adjustedPosition_def)

text \<open>
  Claim C3. In every positioning pass that is not suppressed (non-zero geometry), exactly
  one clip and one handle offset are written, and along the axis of the orientation both
  carry the same pixel, the padded and clamped \<^verbatim>\<open>clampedPx\<close> of that pass; this holds
  for both orientations, every percentage and every padding.
\<close>

theorem clip_offset_agree:
  assumes "rect_width d \<noteq> 0" and "rect_height d \<noteq> 0" and "\<not> suppressed p d s"
  shows "clipWrites (portrait p) (written cb p d s) = [Some (clampedPx p d)]
       \<and> offsetWrites (portrait p) (written cb p d s) = [clampedPx p d]
       \<and> clipWrites (portrait p) (written cb p d s)
           = map Some (offsetWrites (portrait p) (written cb p d s))"
  by (simp add: clipWrites_updated [OF assms] offsetWrites_updated [OF assms])

theorem clip_offset_agree_witness:
  "rect_width (plainDom 100 200) \<noteq> 0 \<and> rect_height (plainDom 100 200) \<noteq> 0
   \<and> \<not> suppressed (relativeArgs 0 30 True 10) (plainDom 100 200) (mount 50)
   \<and> clipWrites (portrait (relativeArgs 0 30 True 10))
        (written True (relativeArgs 0 30 True 10) (plainDom 100 200) (mount 50))
      = map Some (offsetWrites (portrait (relativeArgs 0 30 True 10))
          (written True (relativeArgs 0 30 True 10) (plainDom 100 200) (mount 50)))"
proof -
  have w: "rect_width (plainDom 100 200) \<noteq> 0" and h: "rect_height (plainDom 100 200) \<noteq> 0"
    by (simp_all add: plainDom_def)
  have n: "\<not> suppressed (relativeArgs 0 30 True 10) (plainDom 100 200) (mount 50)"
    by (simp add: suppressed_def mount_def)
  show ?thesis
    using w h n clip_offset_agree [OF w h n, of True] by blast
qed






section \<open>The percentage\<close>

lemma pass_percentage:
  assumes nz: "rect_width d \<noteq> 0" "rect_height d \<noteq> 0"
  shows "internalPositionPc (updateInternalPosition cb p d s) = nextInternalPositionPc p d"
proof (cases "suppressed p d s")
  case True
  then show ?thesis by (simp add: updateInternalPosition_suppressed suppressed_def)
next
  case False
  show ?thesis by (simp add: updateInternalPosition_updated [OF nz False])
qed

lemma not_suppressed_midway:
  assumes "nextInternalPositionPc p d \<noteq> 0" "nextInternalPositionPc p d \<noteq> 100"
  shows "\<not> suppressed p d s"
  using assms by (auto simp: suppressed_def)

text \<open>
  Claim C4. On a container of non-zero width and height that is not scaled (layout size
  equal to the bounding rectangle), the zoom scale is \<open>1\<close> and a positioning pass leaves
  the percentage \<open>clamped pixel / extent * 100\<close>. In the scenario of a horizontal slider
  without padding on a container of width \<open>300\<close>, a container-relative \<open>x = 75\<close>
  gives the percentage \<open>25\<close>, and the clip and the offset are both written as \<open>75\<close>.
\<close>

theorem unscaled_percentage:
  assumes "rect_width d \<noteq> 0" and "rect_height d \<noteq> 0"
    and "offsetWidth d = rect_width d" and "offsetHeight d = rect_height d"
  shows "zoomScale p d = 1
       \<and> internalPositionPc (updateInternalPosition cb p d s)
           = positionPx p d / extent p d * 100
       \<and> (\<not> portrait p \<and> boundsPadding p = 0 \<and> rect_width d = 300
            \<and> (if isOffset p then coordX p - rect_left d - pageXOffset d else coordX p) = 75
          \<longrightarrow> internalPositionPc (updateInternalPosition cb p d s) = 25
              \<and> clipWrites False (written cb p d s) = [Some 75]
              \<and> offsetWrites False (written cb p d s) = [75])"
proof -
  note nz = assms(1,2)
  have z: "zoomScale p d = 1"
    using assms by (rule adjustedExtent_unscaled(1))
  have pc: "internalPositionPc (updateInternalPosition cb p d s)
           = positionPx p d / extent p d * 100"
    by (simp add: pass_percentage [OF nz] nextInternalPositionPc_eq [OF nz])
  have sc: "\<not> portrait p \<and> boundsPadding p = 0 \<and> rect_width d = 300
            \<and> (if isOffset p then coordX p - rect_left d - pageXOffset d else coordX p) = 75
          \<longrightarrow> internalPositionPc (updateInternalPosition cb p d s) = 25
              \<and> clipWrites False (written cb p d s) = [Some 75]
              \<and> offsetWrites False (written cb p d s) = [75]"
  proof (intro impI, elim conjE)
    assume l: "\<not> portrait p" and b: "boundsPadding p = 0" and w: "rect_width d = 300"
      and x: "(if isOffset p then coordX p - rect_left d - pageXOffset d else coordX p) = 75"
    have px: "positionPx p d = 75" using l w x by (simp add: positionPx_def)
    have ex: "extent p d = 300" using l w by (simp add: extent_def)
    have n: "nextInternalPositionPc p d = 25"
      by (simp add: nextInternalPositionPc_eq [OF nz] px ex)
    have ns: "\<not> suppressed p d s" by (rule not_suppressed_midway) (simp_all add: n)
    have ae: "adjustedExtent p d = 300"
      using adjustedExtent_unscaled(2) [OF assms, of p] ex by simp
    have ap: "adjustedPosition p d = 75"
      using adjustedExtent_unscaled(3) [OF assms, of p] px by simp
    have c: "clampedPx p d = 75"
      using ae ap b l by (simp add: clampedPx_def adjustedExtent_def)
    show "internalPositionPc (updateInternalPosition cb p d s) = 25
              \<and> clipWrites False (written cb p d s) = [Some 75]
              \<and> offsetWrites False (written cb p d s) = [75]"
      using clipWrites_updated [OF nz ns, of cb] offsetWrites_updated [OF nz ns, of cb] l c
        pass_percentage [OF nz, of cb p s] n
      by simp
  qed
  from z pc sc show ?thesis by (intro conjI)
qed

theorem unscaled_percentage_witness:
  "rect_width (plainDom 300 150) \<noteq> 0 \<and> rect_height (plainDom 300 150) \<noteq> 0
   \<and> offsetWidth (plainDom 300 150) = rect_width (plainDom 300 150)
   \<and> offsetHeight (plainDom 300 150) = rect_height (plainDom 300 150)
   \<and> internalPositionPc
        (updateInternalPosition True (relativeArgs 75 0 False 0) (plainDom 300 150) (mount 50))
       = 25
   \<and> clipWrites False
        (written True (relativeArgs 75 0 False 0) (plainDom 300 150) (mount 50)) = [Some 75]
   \<and> offsetWrites False
        (written True (relativeArgs 75 0 False 0) (plainDom 300 150) (mount 50)) = [75]"
proof -
  have w: "rect_width (plainDom 300 150) \<noteq> 0" and h: "rect_height (plainDom 300 150) \<noteq> 0"
    and ow: "offsetWidth (plainDom 300 150) = rect_width (plainDom 300 150)"
    and oh: "offsetHeight (plainDom 300 150) = rect_height (plainDom 300 150)"
    by (simp_all add: plainDom_def)
  have a: "\<not> portrait (relativeArgs 75 0 False 0) \<and> boundsPadding (relativeArgs 75 0 False 0) = 0
      \<and> rect_width (plainDom 300 150) = 300
      \<and> (if isOffset (relativeArgs 75 0 False 0)
          then coordX (relativeArgs 75 0 False 0) - rect_left (plainDom 300 150)
                 - pageXOffset (plainDom 300 150)
          else coordX (relativeArgs 75 0 False 0)) = 75"
    by (simp add: relativeArgs_def plainDom_def)
  show ?thesis
    using w h ow oh a
      unscaled_percentage [OF w h ow oh, where p = "relativeArgs 75 0 False 0" and cb = True
        and s = "mount 50"]
    by blast
qed

section \<open>Resize\<close>

lemma positionPx_relative:
  "\<not> isOffset p \<Longrightarrow> \<not> portrait p \<Longrightarrow> 0 \<le> coordX p \<Longrightarrow> coordX p \<le> rect_width d \<Longrightarrow>
   positionPx p d = coordX p"
  "\<not> isOffset p \<Longrightarrow> portrait p \<Longrightarrow> 0 \<le> coordY p \<Longrightarrow> coordY p \<le> rect_height d \<Longrightarrow>
   positionPx p d = coordY p"
  by (simp_all add: positionPx_def)

lemma proportional_pixel:
  assumes "0 < (w::real)" "0 \<le> c" "c \<le> 100"
  shows "0 \<le> w / 100 * c" "w / 100 * c \<le> w" "w / 100 * c / w * 100 = c"
proof -
  show "0 \<le> w / 100 * c" using assms by simp
  have "w / 100 * c \<le> w / 100 * 100"
    using assms by (intro mult_left_mono) simp_all
  then show "w / 100 * c \<le> w" by simp
  show "w / 100 * c / w * 100 = c" using assms by simp
qed

lemma resync_percentage:
  assumes pos: "0 < rect_width d" "0 < rect_height d"
    and c: "0 \<le> c" "c \<le> 100"
  shows "nextInternalPositionPc
           \<lparr>coordX = (rect_width d / 100) * c, coordY = (rect_height d / 100) * c,
            isOffset = False, portrait = prt, boundsPadding = bp\<rparr> d = c"
proof -
  let ?p = "\<lparr>coordX = (rect_width d / 100) * c, coordY = (rect_height d / 100) * c,
            isOffset = False, portrait = prt, boundsPadding = bp\<rparr>"
  have nz: "rect_width d \<noteq> 0" "rect_height d \<noteq> 0" using pos by simp_all
  have eq: "nextInternalPositionPc ?p d = positionPx ?p d / extent ?p d * 100"
    by (rule nextInternalPositionPc_eq [OF nz])
  show ?thesis
  proof (cases prt)
    case True
    have px: "positionPx ?p d = rect_height d / 100 * c"
      using proportional_pixel(1,2) [OF pos(2) c] True
      by (simp add: positionPx_relative(2))
    have ex: "extent ?p d = rect_height d"
      using True by (simp add: extent_def)
    have "nextInternalPositionPc ?p d = rect_height d / 100 * c / rect_height d * 100"
      by (simp only: eq px ex)
    also have "\<dots> = c"
      by (rule proportional_pixel(3) [OF pos(2) c])
    finally show ?thesis .
  next
    case False
    have px: "positionPx ?p d = rect_width d / 100 * c"
      using proportional_pixel(1,2) [OF pos(1) c] False
      by (simp add: positionPx_relative(1))
    have ex: "extent ?p d = rect_width d"
      using False by (simp add: extent_def)
    have "nextInternalPositionPc ?p d = rect_width d / 100 * c / rect_width d * 100"
      by (simp only: eq px ex)
    also have "\<dots> = c"
      by (rule proportional_pixel(3) [OF pos(1) c])
    finally show ?thesis .
  qed
qed

subsection \<open>The pass over numbers that may be NaN\<close>

lemma resizeDividend_zero:
  "resizeDividend 0 pc scaled = Num 0 \<or> resizeDividend 0 pc scaled = NaN"
  by (cases pc) (simp_all add: resizeDividend_def)

lemma resizeCoordinate_finite:
  "sz \<noteq> 0 \<Longrightarrow> resizeCoordinate sz (Num c) scaled = Num (scaled / 100 * c)"
  by (simp add: resizeCoordinate_def resizeDividend_def)

lemma resizeCoordinate_NaN:
  "resizeCoordinate 0 pc scaled = NaN" "resizeCoordinate sz NaN scaled = NaN"
  by (simp_all add: resizeCoordinate_def resizeDividend_def)

lemma from_fields:
  "jsX (fromProps p) = Num (coordX p)" "jsY (fromProps p) = Num (coordY p)"
  "jsIsOffset (fromProps p) = isOffset p" "jsPortrait (fromProps p) = portrait p"
  "jsBoundsPadding (fromProps p) = boundsPadding p"
  by (simp_all add: fromProps_def)

lemma from_locals:
  "jsPositionPx (fromProps p) d = Num (positionPx p d)"
  "jsZoomScale (fromProps p) d = zoomScale p d"
  "jsAdjustedWidth (fromProps p) d = adjustedWidth p d"
  "jsAdjustedHeight (fromProps p) d = adjustedHeight p d"
  by (simp_all add: jsPositionPx_def positionPx_def jsZoomScale_def zoomScale_def
      jsAdjustedWidth_def adjustedWidth_def jsAdjustedHeight_def adjustedHeight_def
      from_fields)

lemma from_adjustedPosition:
  "jsAdjustedPosition (fromProps p) d = Num (adjustedPosition p d)"
  by (simp add: jsAdjustedPosition_def adjustedPosition_def from_locals)

lemma from_next:
  "jsNextInternalPositionPc (fromProps p) d = Num (nextInternalPositionPc p d)"
  by (simp add: jsNextInternalPositionPc_def nextInternalPositionPc_def from_locals
      from_adjustedPosition from_fields)

lemma from_conditions:
  "jsPositionMeetsBounds (fromProps p) d = positionMeetsBounds p d"
  "jsCanSkipPositionPc (fromProps p) d (fromEngine s) = canSkipPositionPc p d s"
  by (simp_all add: jsPositionMeetsBounds_def positionMeetsBounds_def jsCanSkipPositionPc_def
      canSkipPositionPc_def from_locals from_adjustedPosition from_next from_fields
      fromEngine_def)

lemma from_clampedPx:
  "jsClampedPx (fromProps p) d = Num (clampedPx p d)"
  by (simp add: jsClampedPx_def clampedPx_def from_locals from_adjustedPosition from_fields)

lemma from_styles:
  "jsClipStyle (fromProps p) d = fromClip (clipStyle p d)"
  "jsTransformStyle (fromProps p) d = fromTransform (transformStyle p d)"
  by (simp_all add: jsClipStyle_def clipStyle_def jsTransformStyle_def transformStyle_def
      from_clampedPx from_fields)

text \<open>On real numbers the second embedding of the pass is the first one.\<close>

lemma jsUpdateInternalPosition_from:
  "jsUpdateInternalPosition cb (fromProps p) d (fromEngine s)
     = fromEngine (updateInternalPosition cb p d s)"
  by (simp add: jsUpdateInternalPosition_def updateInternalPosition_def from_conditions
      from_next from_styles)
     (simp add: fromEngine_def)

text \<open>
  A pass whose coordinate on the active axis is \<^verbatim>\<open>NaN\<close> is never suppressed: on a
  container of non-zero width and height it stores \<^verbatim>\<open>NaN\<close>, writes \<^verbatim>\<open>NaNpx\<close> to both
  styles and hands \<^verbatim>\<open>NaN\<close> to the host.
\<close>

lemma jsPositionPx_NaN:
  "(if jsPortrait a then jsY a else jsX a) = NaN \<Longrightarrow> jsPositionPx a d = NaN"
  by (simp add: jsPositionPx_def split: if_splits)

lemma jsUpdateInternalPosition_NaN:
  assumes nz: "rect_width d \<noteq> 0" "rect_height d \<noteq> 0"
    and n: "(if jsPortrait a then jsY a else jsX a) = NaN"
  shows "jsUpdateInternalPosition cb a d s =
     s\<lparr>jsDidSyncBounds := True,
       jsInternalPositionPc := NaN,
       jsEffects := jsEffects s @
         [JsStyleClip (if jsPortrait a then JsRect None None (Some NaN) None
                       else JsRect None (Some NaN) None None),
          JsStyleTransform (if jsPortrait a then JsTranslate3d (Num 0) NaN (Num 0)
                            else JsTranslate3d NaN (Num 0) (Num 0))] @
         (if cb then [JsOnPositionChange NaN] else [])\<rparr>"
proof -
  have p: "jsPositionPx a d = NaN" using n by (rule jsPositionPx_NaN)
  have ap: "jsAdjustedPosition a d = NaN" by (simp add: jsAdjustedPosition_def p)
  have nx: "jsNextInternalPositionPc a d = NaN"
    by (simp add: jsNextInternalPositionPc_def ap)
  have m: "\<not> jsPositionMeetsBounds a d" by (simp add: jsPositionMeetsBounds_def ap)
  have c: "jsClampedPx a d = NaN" by (simp add: jsClampedPx_def ap)
  show ?thesis
    using nz by (simp add: jsUpdateInternalPosition_def m nx jsClipStyle_def
        jsTransformStyle_def c)
qed

text \<open>The coordinate of the other axis is never read.\<close>

lemma other_axis_Y:
  assumes "\<not> jsPortrait a"
  shows "jsPositionPx (a\<lparr>jsY := v\<rparr>) d = jsPositionPx a d"
    and "jsZoomScale (a\<lparr>jsY := v\<rparr>) d = jsZoomScale a d"
    and "jsAdjustedWidth (a\<lparr>jsY := v\<rparr>) d = jsAdjustedWidth a d"
    and "jsAdjustedHeight (a\<lparr>jsY := v\<rparr>) d = jsAdjustedHeight a d"
  using assms
  by (simp_all add: jsPositionPx_def jsZoomScale_def jsAdjustedWidth_def jsAdjustedHeight_def)

lemma other_axis_X:
  assumes "jsPortrait a"
  shows "jsPositionPx (a\<lparr>jsX := v\<rparr>) d = jsPositionPx a d"
    and "jsZoomScale (a\<lparr>jsX := v\<rparr>) d = jsZoomScale a d"
    and "jsAdjustedWidth (a\<lparr>jsX := v\<rparr>) d = jsAdjustedWidth a d"
    and "jsAdjustedHeight (a\<lparr>jsX := v\<rparr>) d = jsAdjustedHeight a d"
  using assms
  by (simp_all add: jsPositionPx_def jsZoomScale_def jsAdjustedWidth_def jsAdjustedHeight_def)

lemma other_axis_Y_derived:
  assumes "\<not> jsPortrait a"
  shows "jsAdjustedPosition (a\<lparr>jsY := v\<rparr>) d = jsAdjustedPosition a d"
    and "jsNextInternalPositionPc (a\<lparr>jsY := v\<rparr>) d = jsNextInternalPositionPc a d"
    and "jsPositionMeetsBounds (a\<lparr>jsY := v\<rparr>) d = jsPositionMeetsBounds a d"
    and "jsCanSkipPositionPc (a\<lparr>jsY := v\<rparr>) d s = jsCanSkipPositionPc a d s"
    and "jsClipStyle (a\<lparr>jsY := v\<rparr>) d = jsClipStyle a d"
    and "jsTransformStyle (a\<lparr>jsY := v\<rparr>) d = jsTransformStyle a d"
  using assms
  by (simp_all add: jsAdjustedPosition_def jsNextInternalPositionPc_def
      jsPositionMeetsBounds_def jsCanSkipPositionPc_def jsClipStyle_def jsTransformStyle_def
      jsClampedPx_def other_axis_Y)

lemma other_axis_X_derived:
  assumes "jsPortrait a"
  shows "jsAdjustedPosition (a\<lparr>jsX := v\<rparr>) d = jsAdjustedPosition a d"
    and "jsNextInternalPositionPc (a\<lparr>jsX := v\<rparr>) d = jsNextInternalPositionPc a d"
    and "jsPositionMeetsBounds (a\<lparr>jsX := v\<rparr>) d = jsPositionMeetsBounds a d"
    and "jsCanSkipPositionPc (a\<lparr>jsX := v\<rparr>) d s = jsCanSkipPositionPc a d s"
    and "jsClipStyle (a\<lparr>jsX := v\<rparr>) d = jsClipStyle a d"
    and "jsTransformStyle (a\<lparr>jsX := v\<rparr>) d = jsTransformStyle a d"
  using assms
  by (simp_all add: jsAdjustedPosition_def jsNextInternalPositionPc_def
      jsPositionMeetsBounds_def jsCanSkipPositionPc_def jsClipStyle_def jsTransformStyle_def
      jsClampedPx_def other_axis_X)

lemma jsUpdateInternalPosition_ignores_Y:
  assumes "\<not> jsPortrait a"
  shows "jsUpdateInternalPosition cb (a\<lparr>jsY := v\<rparr>) d s = jsUpdateInternalPosition cb a d s"
  unfolding jsUpdateInternalPosition_def other_axis_Y_derived [OF assms] by (rule refl)

lemma jsUpdateInternalPosition_ignores_X:
  assumes "jsPortrait a"
  shows "jsUpdateInternalPosition cb (a\<lparr>jsX := v\<rparr>) d s = jsUpdateInternalPosition cb a d s"
  unfolding jsUpdateInternalPosition_def other_axis_X_derived [OF assms] by (rule refl)

subsection \<open>The resize handler\<close>

text \<open>
  When the observer reports a non-zero width and height and the stored percentage is a
  real number, \<^verbatim>\<open>handleResize\<close> makes exactly one positioning pass with the coordinates
  \<open>x = scaledWidth / 100 * percentage\<close> and \<open>y = scaledHeight / 100 * percentage\<close>.
\<close>

lemma handleResize_finite:
  assumes "width \<noteq> 0" and "height \<noteq> 0"
  shows "handleResize cb prt bp width height d (fromEngine s) =
           fromEngine (updateInternalPosition cb
             \<lparr>coordX = (rect_width d / 100) * internalPositionPc s,
              coordY = (rect_height d / 100) * internalPositionPc s,
              isOffset = False, portrait = prt, boundsPadding = bp\<rparr> d s)"
proof -
  let ?p = "\<lparr>coordX = (rect_width d / 100) * internalPositionPc s,
              coordY = (rect_height d / 100) * internalPositionPc s,
              isOffset = False, portrait = prt, boundsPadding = bp\<rparr>"
  have pc: "jsInternalPositionPc (fromEngine s) = Num (internalPositionPc s)"
    by (simp add: fromEngine_def)
  have a: "\<lparr>jsX = resizeCoordinate width (jsInternalPositionPc (fromEngine s)) (rect_width d),
            jsY = resizeCoordinate height (jsInternalPositionPc (fromEngine s)) (rect_height d),
            jsIsOffset = False, jsPortrait = prt, jsBoundsPadding = bp\<rparr> = fromProps ?p"
    unfolding pc resizeCoordinate_finite [OF assms(1)] resizeCoordinate_finite [OF assms(2)]
    by (simp add: fromProps_def)
  show ?thesis
    unfolding handleResize_def Let_def a by (rule jsUpdateInternalPosition_from)
qed

text \<open>
  In landscape the height reported by the observer does not matter, in portrait the width
  does not: the coordinate of the other axis, \<^verbatim>\<open>NaN\<close> or not, is never read.
\<close>

lemma handleResize_other_axis:
  "handleResize cb False bp width height d s = handleResize cb False bp width height' d s"
  "handleResize cb True bp width height d s = handleResize cb True bp width' height d s"
proof -
  let ?x = "resizeCoordinate width (jsInternalPositionPc s) (rect_width d)"
  let ?y = "resizeCoordinate height (jsInternalPositionPc s) (rect_height d)"
  let ?l = "\<lparr>jsX = ?x, jsY = NaN, jsIsOffset = False, jsPortrait = False,
             jsBoundsPadding = bp\<rparr>"
  let ?t = "\<lparr>jsX = NaN, jsY = ?y, jsIsOffset = False, jsPortrait = True,
             jsBoundsPadding = bp\<rparr>"
  have l: "\<not> jsPortrait ?l" and t: "jsPortrait ?t" by simp_all
  have "handleResize cb False bp width h d s = jsUpdateInternalPosition cb ?l d s" for h
    using jsUpdateInternalPosition_ignores_Y [OF l, of cb _ d s]
    by (simp add: handleResize_def)
  then show "handleResize cb False bp width height d s
               = handleResize cb False bp width height' d s"
    by simp
  have "handleResize cb True bp w height d s = jsUpdateInternalPosition cb ?t d s" for w
    using jsUpdateInternalPosition_ignores_X [OF t, of cb _ d s]
    by (simp add: handleResize_def)
  then show "handleResize cb True bp width height d s
               = handleResize cb True bp width' height d s"
    by simp
qed

text \<open>
  For a container of positive size, a stored percentage in \<open>[0, 100]\<close> and non-zero
  sizes from the observer, the resize leaves the percentage in place.
\<close>

lemma handleResize_preserves:
  assumes "width \<noteq> 0" and "height \<noteq> 0"
    and pos: "0 < rect_width d" "0 < rect_height d"
    and c: "0 \<le> internalPositionPc s" "internalPositionPc s \<le> 100"
  shows "jsInternalPositionPc (handleResize cb prt bp width height d (fromEngine s))
           = Num (internalPositionPc s)"
proof -
  have nz: "rect_width d \<noteq> 0" "rect_height d \<noteq> 0" using pos by simp_all
  show ?thesis
    unfolding handleResize_finite [OF assms(1,2)]
    by (simp only: fromEngine_def jsEngine.simps pass_percentage [OF nz]
        resync_percentage [OF pos c])
qed

text \<open>
  When the observer reports \<open>0\<close> on the active axis while the bounding rectangle is not
  empty, the coordinate is \<^verbatim>\<open>NaN\<close>: the pass is not suppressed, the stored percentage
  becomes \<^verbatim>\<open>NaN\<close> and the host is handed \<^verbatim>\<open>NaN\<close>.
\<close>

lemma handleResize_zero_observer:
  assumes nz: "rect_width d \<noteq> 0" "rect_height d \<noteq> 0"
    and z: "(if prt then height else width) = 0"
  shows "handleResize cb prt bp width height d s =
     s\<lparr>jsDidSyncBounds := True,
       jsInternalPositionPc := NaN,
       jsEffects := jsEffects s @
         [JsStyleClip (if prt then JsRect None None (Some NaN) None
                       else JsRect None (Some NaN) None None),
          JsStyleTransform (if prt then JsTranslate3d (Num 0) NaN (Num 0)
                            else JsTranslate3d NaN (Num 0) (Num 0))] @
         (if cb then [JsOnPositionChange NaN] else [])\<rparr>"
proof -
  let ?a = "\<lparr>jsX = resizeCoordinate width (jsInternalPositionPc s) (rect_width d),
            jsY = resizeCoordinate height (jsInternalPositionPc s) (rect_height d),
            jsIsOffset = False, jsPortrait = prt, jsBoundsPadding = bp\<rparr>"
  have n: "(if jsPortrait ?a then jsY ?a else jsX ?a) = NaN"
    using z by (simp add: resizeCoordinate_NaN split: if_splits)
  show ?thesis
    unfolding handleResize_def Let_def
    using jsUpdateInternalPosition_NaN [OF nz n, of cb s] by simp
qed

text \<open>
  The scenario of the specification: the percentage \<open>50\<close> set up on a \<open>200 \<times> 100\<close>
  container is \<open>50\<close> again after the resize to \<open>400 \<times> 100\<close>.
\<close>

lemma resize_prior_state:
  "internalPositionPc (positionEffect True False 0 50 None (plainDom 200 100) (mount 50)) = 50"
proof -
  have nz: "rect_width (plainDom 200 100) \<noteq> 0" "rect_height (plainDom 200 100) \<noteq> 0"
    by (simp_all add: plainDom_def)
  show ?thesis
    by (simp add: positionEffect_def pass_percentage [OF nz]
        nextInternalPositionPc_eq [OF nz])
       (simp add: positionPx_def extent_def plainDom_def)
qed

lemma handleResize_scenario:
  "jsInternalPositionPc
     (handleResize True False 0 400 100 (plainDom 400 100)
       (fromEngine (positionEffect True False 0 50 None (plainDom 200 100) (mount 50))))
   = Num 50"
proof -
  let ?s = "positionEffect True False 0 50 None (plainDom 200 100) (mount 50)"
  have w: "(400::real) \<noteq> 0" and h: "(100::real) \<noteq> 0" by simp_all
  have pos: "0 < rect_width (plainDom 400 100)" "0 < rect_height (plainDom 400 100)"
    by (simp_all add: plainDom_def)
  have c: "0 \<le> internalPositionPc ?s" "internalPositionPc ?s \<le> 100"
    by (simp_all add: resize_prior_state)
  show ?thesis
    using handleResize_preserves [OF w h pos c, of True False 0]
    by (simp only: resize_prior_state)
qed

text \<open>
  Claim C7 says that on a resize the engine recomputes the pixel as
  \<open>newWidth / 100 * previous percentage\<close> and so preserves the percentage. The code does not
  do so on every resize. Take the state of the scenario (percentage \<open>50\<close>) and a resize
  after which the observer reports the content width \<open>0\<close> (height \<open>100\<close>) while the
  bounding rectangle is \<open>20 \<times> 100\<close>, in landscape: \<^verbatim>\<open>handleResize\<close> computes
  \<^verbatim>\<open>x = 0 / 0 = NaN\<close>, the pass stores \<^verbatim>\<open>NaN\<close> as the percentage, writes \<^verbatim>\<open>NaNpx\<close>
  to the clip and to the handle offset and calls \<^verbatim>\<open>onPositionChange(NaN)\<close>; whereas a
  pass with the pixel of the claim, \<open>20 / 100 * 50\<close>, keeps the percentage \<open>50\<close>.
\<close>

theorem resize_zero_observer_width:
  "internalPositionPc (positionEffect True False 0 50 None (plainDom 200 100) (mount 50)) = 50
   \<and> jsInternalPositionPc
        (handleResize True False 0 0 100 (plainDom 20 100)
          (fromEngine (positionEffect True False 0 50 None (plainDom 200 100) (mount 50))))
       = NaN
   \<and> jsEffects
        (handleResize True False 0 0 100 (plainDom 20 100)
          (fromEngine (positionEffect True False 0 50 None (plainDom 200 100) (mount 50))))
       = jsEffects
           (fromEngine (positionEffect True False 0 50 None (plainDom 200 100) (mount 50)))
         @ [JsStyleClip (JsRect None (Some NaN) None None),
            JsStyleTransform (JsTranslate3d NaN (Num 0) (Num 0)),
            JsOnPositionChange NaN]
   \<and> jsInternalPositionPc
        (jsUpdateInternalPosition True
          \<lparr>jsX = Num (20 / 100 * 50), jsY = Num (100 / 100 * 50), jsIsOffset = False,
           jsPortrait = False, jsBoundsPadding = 0\<rparr>
          (plainDom 20 100)
          (fromEngine (positionEffect True False 0 50 None (plainDom 200 100) (mount 50))))
       = Num 50"
proof -
  let ?s = "positionEffect True False 0 50 None (plainDom 200 100) (mount 50)"
  let ?d = "plainDom 20 100"
  have nz: "rect_width ?d \<noteq> 0" "rect_height ?d \<noteq> 0"
    by (simp_all add: plainDom_def)
  have z: "(if False then (100::real) else 0) = 0" by simp
  note nan = handleResize_zero_observer [OF nz z, of True 0 "fromEngine ?s"]
  have stored: "jsInternalPositionPc (handleResize True False 0 0 100 ?d (fromEngine ?s)) = NaN"
    unfolding nan by simp
  have log: "jsEffects (handleResize True False 0 0 100 ?d (fromEngine ?s))
       = jsEffects (fromEngine ?s)
         @ [JsStyleClip (JsRect None (Some NaN) None None),
            JsStyleTransform (JsTranslate3d NaN (Num 0) (Num 0)),
            JsOnPositionChange NaN]"
    unfolding nan by simp
  let ?p = "\<lparr>coordX = 20 / 100 * 50, coordY = 100 / 100 * 50, isOffset = False,
            portrait = False, boundsPadding = 0\<rparr>"
  have a: "\<lparr>jsX = Num (20 / 100 * 50), jsY = Num (100 / 100 * 50), jsIsOffset = False,
           jsPortrait = False, jsBoundsPadding = 0\<rparr> = fromProps ?p"
    by (simp add: fromProps_def)
  have n: "nextInternalPositionPc ?p ?d = 50"
    unfolding nextInternalPositionPc_eq [OF nz]
    by (simp add: positionPx_def extent_def plainDom_def)
  have claimed: "jsInternalPositionPc (jsUpdateInternalPosition True
          \<lparr>jsX = Num (20 / 100 * 50), jsY = Num (100 / 100 * 50), jsIsOffset = False,
           jsPortrait = False, jsBoundsPadding = 0\<rparr> ?d (fromEngine ?s)) = Num 50"
    unfolding a jsUpdateInternalPosition_from
    by (simp only: fromEngine_def jsEngine.simps pass_percentage [OF nz] n)
  from resize_prior_state stored log claimed show ?thesis by (intro conjI)
qed

section \<open>The zoom scale\<close>

lemma suppressed_unscaled_form:
  assumes nz: "rect_width d \<noteq> 0" "rect_height d \<noteq> 0"
  shows "suppressed p d s =
     (didSyncBounds s \<and> positionPx p d / extent p d * 100 = internalPositionPc s \<and>
      (internalPositionPc s = 0 \<or> internalPositionPc s = 100) \<and>
      (positionPx p d = 0 \<or> positionPx p d = extent p d))"
  by (simp only: suppressed_def nextInternalPositionPc_eq [OF nz]
      adjustedPosition_eq_0 [OF nz] adjustedPosition_eq_extent [OF nz])

lemma layout_size_irrelevant:
  "positionPx p (d\<lparr>offsetWidth := ow, offsetHeight := oh\<rparr>) = positionPx p d"
  "extent p (d\<lparr>offsetWidth := ow, offsetHeight := oh\<rparr>) = extent p d"
  by (simp_all add: positionPx_def extent_def)

text \<open>
  Claim C10. For every container of non-zero width and height and every layout-reported
  size, the percentage of a positioning pass is \<open>clamped raw pixel / true extent * 100\<close>:
  the zoom scale divides both the pixel and the extent and cancels. Replacing the
  layout-reported width and height by any other values changes neither the computed
  percentage, nor the stored percentage, nor the synchronisation flag, nor the
  notifications of the pass. The written pixel does depend on them: on a container of
  width \<open>200\<close> with the pointer at \<open>100\<close>, it is \<open>100\<close> for a layout width of \<open>200\<close>
  and \<open>50\<close> for a layout width of \<open>100\<close>.
\<close>

theorem percentage_independent_of_zoom:
  assumes "rect_width d \<noteq> 0" and "rect_height d \<noteq> 0"
  shows "nextInternalPositionPc p d = positionPx p d / extent p d * 100
       \<and> nextInternalPositionPc p (d\<lparr>offsetWidth := ow, offsetHeight := oh\<rparr>)
           = nextInternalPositionPc p d
       \<and> internalPositionPc
            (updateInternalPosition cb p (d\<lparr>offsetWidth := ow, offsetHeight := oh\<rparr>) s)
           = internalPositionPc (updateInternalPosition cb p d s)
       \<and> didSyncBounds
            (updateInternalPosition cb p (d\<lparr>offsetWidth := ow, offsetHeight := oh\<rparr>) s)
           = didSyncBounds (updateInternalPosition cb p d s)
       \<and> notifications (written cb p (d\<lparr>offsetWidth := ow, offsetHeight := oh\<rparr>) s)
           = notifications (written cb p d s)
       \<and> clampedPx (relativeArgs 100 0 False 0) (plainDom 200 100) = 100
       \<and> clampedPx (relativeArgs 100 0 False 0) ((plainDom 200 100)\<lparr>offsetWidth := 100\<rparr>)
           = 50"
proof -
  let ?d = "d\<lparr>offsetWidth := ow, offsetHeight := oh\<rparr>"
  note nz = assms
  have nz': "rect_width ?d \<noteq> 0" "rect_height ?d \<noteq> 0" using nz by simp_all
  have pc: "nextInternalPositionPc p d = positionPx p d / extent p d * 100"
    by (rule nextInternalPositionPc_eq [OF nz])
  have same: "nextInternalPositionPc p ?d = nextInternalPositionPc p d"
    by (simp only: nextInternalPositionPc_eq [OF nz] nextInternalPositionPc_eq [OF nz']
        layout_size_irrelevant)
  have sup: "suppressed p ?d s = suppressed p d s"
    by (simp only: suppressed_unscaled_form [OF nz] suppressed_unscaled_form [OF nz']
        layout_size_irrelevant)
  have stored: "internalPositionPc (updateInternalPosition cb p ?d s)
           = internalPositionPc (updateInternalPosition cb p d s)"
    by (simp only: pass_percentage [OF nz] pass_percentage [OF nz'] same)
  have flag: "didSyncBounds (updateInternalPosition cb p ?d s)
           = didSyncBounds (updateInternalPosition cb p d s)"
    using pass_synced [OF nz, of cb p s] pass_synced [OF nz', of cb p s] by simp
  have ntf: "notifications (written cb p ?d s) = notifications (written cb p d s)"
  proof (cases "suppressed p d s")
    case True
    with sup have "suppressed p ?d s" by simp
    with True show ?thesis by (simp add: written_suppressed)
  next
    case False
    with sup have f: "\<not> suppressed p ?d s" by simp
    show ?thesis
      by (simp only: notifications_updated [OF nz False] notifications_updated [OF nz' f] same)
  qed
  have c1: "clampedPx (relativeArgs 100 0 False 0) (plainDom 200 100) = 100"
    by (simp add: clampedPx_def adjustedPosition_def adjustedWidth_def zoomScale_def
        positionPx_def js_or_def relativeArgs_def plainDom_def)
  have c2: "clampedPx (relativeArgs 100 0 False 0) ((plainDom 200 100)\<lparr>offsetWidth := 100\<rparr>)
           = 50"
    by (simp add: clampedPx_def adjustedPosition_def adjustedWidth_def zoomScale_def
        positionPx_def js_or_def relativeArgs_def plainDom_def)
  from pc same stored flag ntf c1 c2 show ?thesis by (intro conjI)
qed

theorem percentage_independent_of_zoom_witness:
  "rect_width (plainDom 200 100) \<noteq> 0 \<and> rect_height (plainDom 200 100) \<noteq> 0
   \<and> nextInternalPositionPc (relativeArgs 100 0 False 0)
        ((plainDom 200 100)\<lparr>offsetWidth := 100, offsetHeight := 50\<rparr>)
       = nextInternalPositionPc (relativeArgs 100 0 False 0) (plainDom 200 100)
   \<and> nextInternalPositionPc (relativeArgs 100 0 False 0) (plainDom 200 100)
       = positionPx (relativeArgs 100 0 False 0) (plainDom 200 100)
           / extent (relativeArgs 100 0 False 0) (plainDom 200 100) * 100"
proof -
  have w: "rect_width (plainDom 200 100) \<noteq> 0" and h: "rect_height (plainDom 200 100) \<noteq> 0"
    by (simp_all add: plainDom_def)
  show ?thesis
    using w h
      percentage_independent_of_zoom [OF w h, where p = "relativeArgs 100 0 False 0"
        and ow = 100 and oh = 50 and cb = True and s = "mount 50"]
    by blast
qed

section \<open>The window binding\<close>

lemma cleanup_bound:
  assumes "hasWindowBinding b" "windowListeners b = dragListeners g"
  shows "windowListeners (bindingCleanup g b) = []"
    and "\<not> hasWindowBinding (bindingCleanup g b)"
    and "isDragging (bindingCleanup g b) = isDragging b"
    and "handlerGen (bindingCleanup g b) = handlerGen b"
  using assms
  by (simp_all add: bindingCleanup_def removeEventListener_def dragListeners_def)

lemma cleanup_unbound:
  "\<not> hasWindowBinding b \<Longrightarrow> bindingCleanup g b = b"
  by (simp add: bindingCleanup_def)

lemma effect_unbound:
  assumes "\<not> hasWindowBinding b" "windowListeners b = []"
  shows "windowListeners (bindingEffect g b) = (if isDragging b then dragListeners g else [])"
    and "hasWindowBinding (bindingEffect g b) = isDragging b"
    and "isDragging (bindingEffect g b) = isDragging b"
    and "handlerGen (bindingEffect g b) = handlerGen b"
  using assms
  by (simp_all add: bindingEffect_def addEventListener_def dragListeners_def)

lemma rerun_effect:
  assumes inv: "bindingInvariant b"
  shows "bindingInvariant
           (bindingEffect g (bindingCleanup (handlerGen b) (b\<lparr>isDragging := dr, handlerGen := g\<rparr>)))"
    and "isDragging
           (bindingEffect g (bindingCleanup (handlerGen b) (b\<lparr>isDragging := dr, handlerGen := g\<rparr>)))
         = dr"
    and "handlerGen
           (bindingEffect g (bindingCleanup (handlerGen b) (b\<lparr>isDragging := dr, handlerGen := g\<rparr>)))
         = g"
proof -
  let ?b = "b\<lparr>isDragging := dr, handlerGen := g\<rparr>"
  let ?c = "bindingCleanup (handlerGen b) ?b"
  have c: "windowListeners ?c = [] \<and> \<not> hasWindowBinding ?c \<and> isDragging ?c = dr
           \<and> handlerGen ?c = g"
  proof (cases "hasWindowBinding b")
    case True
    with inv have "windowListeners ?b = dragListeners (handlerGen b)" "hasWindowBinding ?b"
      by (simp_all add: bindingInvariant_def)
    from cleanup_bound [OF this(2) this(1)] show ?thesis by simp
  next
    case False
    with inv have "windowListeners ?b = []" "\<not> hasWindowBinding ?b"
      by (simp_all add: bindingInvariant_def)
    then show ?thesis by (simp add: cleanup_unbound)
  qed
  then have u: "\<not> hasWindowBinding ?c" "windowListeners ?c = []"
    and cd: "isDragging ?c = dr" and cg: "handlerGen ?c = g" by simp_all
  let ?e = "bindingEffect g ?c"
  have e1: "windowListeners ?e = (if dr then dragListeners g else [])"
    using effect_unbound(1) [OF u, of g] by (simp only: cd)
  have e2: "hasWindowBinding ?e = dr"
    using effect_unbound(2) [OF u, of g] by (simp only: cd)
  have e3: "isDragging ?e = dr"
    using effect_unbound(3) [OF u, of g] by (simp only: cd)
  have e4: "handlerGen ?e = g"
    using effect_unbound(4) [OF u, of g] by (simp only: cg)
  show "bindingInvariant ?e"
    unfolding bindingInvariant_def e1 e2 e3 e4 by simp
  show "isDragging ?e = dr" by (rule e3)
  show "handlerGen ?e = g" by (rule e4)
qed

lemma commit_invariant:
  assumes "bindingInvariant b"
  shows "bindingInvariant (commit dr g b)"
    and "isDragging (commit dr g b) = dr"
    and "handlerGen (commit dr g b) = g"
  using assms rerun_effect [OF assms, of g dr]
  by (auto simp: commit_def)

lemma mouseup_bound:
  "bindingInvariant b \<Longrightarrow>
   ((''mouseup'', HandlePointerUp) \<in> set (windowListeners b)
     \<or> (''touchend'', HandlePointerUp) \<in> set (windowListeners b)) = isDragging b"
  by (simp add: bindingInvariant_def dragListeners_def)

lemma step_invariant:
  assumes "bindingInvariant b"
  shows "bindingInvariant (step e b)"
proof (cases e)
  case (PointerDown c)
  then show ?thesis using commit_invariant(1) [OF assms] by simp
next
  case PointerUp
  then show ?thesis using commit_invariant(1) [OF assms] assms by simp
next
  case MouseLeave
  then show ?thesis using commit_invariant(1) [OF assms] assms by simp
next
  case HandlerChange
  then show ?thesis using commit_invariant(1) [OF assms] by simp
qed

lemma steps_invariant:
  "bindingInvariant b \<Longrightarrow> bindingInvariant (steps es b)"
  by (induction es arbitrary: b) (simp_all add: step_invariant)

lemma mounted_invariant: "bindingInvariant mounted"
  by (simp add: bindingInvariant_def mounted_def)

lemma distinct_dragListeners: "distinct (dragListeners g)"
  by (simp add: dragListeners_def)

text \<open>
  Claim C9. After any sequence of pointer-down, pointer-up, mouse-leave and handler-change
  events from mount, the flag \<^verbatim>\<open>hasWindowBinding\<close> equals \<^verbatim>\<open>isDragging\<close>, and
  the window holds each of the four listeners (\<^verbatim>\<open>mousemove\<close>, \<^verbatim>\<open>mouseup\<close>,
  \<^verbatim>\<open>touchmove\<close>, \<^verbatim>\<open>touchend\<close>) of the current handlers exactly once while dragging
  and none when idle. A pointer-down in the idle state enters dragging and attaches
  exactly these four; a pointer-up while dragging returns to idle and leaves nothing
  attached; a further pointer-down while dragging attaches nothing more.
\<close>

theorem window_binding_lifecycle:
  "hasWindowBinding (steps evs mounted) = isDragging (steps evs mounted)
   \<and> windowListeners (steps evs mounted)
       = (if isDragging (steps evs mounted)
          then dragListeners (handlerGen (steps evs mounted)) else [])
   \<and> distinct (windowListeners (steps evs mounted))
   \<and> (\<not> isDragging (steps evs mounted) \<longrightarrow>
        isDragging (step (PointerDown c) (steps evs mounted))
        \<and> windowListeners (step (PointerDown c) (steps evs mounted))
            = dragListeners (nextGen c (steps evs mounted)))
   \<and> (isDragging (steps evs mounted) \<longrightarrow>
        \<not> isDragging (step PointerUp (steps evs mounted))
        \<and> windowListeners (step PointerUp (steps evs mounted)) = []
        \<and> step (PointerDown False) (steps evs mounted) = steps evs mounted)"
proof -
  let ?b = "steps evs mounted"
  have inv: "bindingInvariant ?b"
    using mounted_invariant by (rule steps_invariant)
  have flag: "hasWindowBinding ?b = isDragging ?b"
    and ls: "windowListeners ?b = (if isDragging ?b then dragListeners (handlerGen ?b) else [])"
    using inv by (simp_all add: bindingInvariant_def)
  have d: "distinct (windowListeners ?b)"
    unfolding ls by (simp add: distinct_dragListeners)
  have down: "\<not> isDragging ?b \<longrightarrow>
        isDragging (step (PointerDown c) ?b)
        \<and> windowListeners (step (PointerDown c) ?b) = dragListeners (nextGen c ?b)"
  proof
    assume "\<not> isDragging ?b"
    have i: "bindingInvariant (commit True (nextGen c ?b) ?b)"
      and dr: "isDragging (commit True (nextGen c ?b) ?b)"
      and g: "handlerGen (commit True (nextGen c ?b) ?b) = nextGen c ?b"
      using commit_invariant [OF inv, of True "nextGen c ?b"] by simp_all
    from i dr g show "isDragging (step (PointerDown c) ?b)
        \<and> windowListeners (step (PointerDown c) ?b) = dragListeners (nextGen c ?b)"
      by (simp add: bindingInvariant_def)
  qed
  have up: "isDragging ?b \<longrightarrow>
        \<not> isDragging (step PointerUp ?b)
        \<and> windowListeners (step PointerUp ?b) = []
        \<and> step (PointerDown False) ?b = ?b"
  proof
    assume a: "isDragging ?b"
    have i: "bindingInvariant (commit False (handlerGen ?b) ?b)"
      and dr: "\<not> isDragging (commit False (handlerGen ?b) ?b)"
      using commit_invariant [OF inv, of False "handlerGen ?b"] by simp_all
    have s: "step PointerUp ?b = commit False (handlerGen ?b) ?b"
      using mouseup_bound [OF inv] a by simp
    have again: "step (PointerDown False) ?b = ?b"
      using a by (simp add: commit_def nextGen_def)
    from i dr s again show "\<not> isDragging (step PointerUp ?b)
        \<and> windowListeners (step PointerUp ?b) = []
        \<and> step (PointerDown False) ?b = ?b"
      by (simp add: bindingInvariant_def)
  qed
  from flag ls d down up show ?thesis by (intro conjI)
qed

theorem window_binding_lifecycle_witness:
  "\<not> isDragging (steps [PointerDown True, PointerUp] mounted)
   \<and> isDragging (steps [PointerDown True, PointerUp, PointerDown False] mounted)
   \<and> windowListeners (step (PointerDown False) (steps [PointerDown True, PointerUp] mounted))
       = dragListeners (nextGen False (steps [PointerDown True, PointerUp] mounted))
   \<and> windowListeners
        (step PointerUp (steps [PointerDown True, PointerUp, PointerDown False] mounted)) = []"
proof -
  have i: "\<not> isDragging (steps [PointerDown True, PointerUp] mounted)"
    by (simp add: mounted_def commit_def nextGen_def bindingEffect_def bindingCleanup_def
        addEventListener_def removeEventListener_def)
  have j: "isDragging (steps [PointerDown True, PointerUp, PointerDown False] mounted)"
    by (simp add: mounted_def commit_def nextGen_def bindingEffect_def bindingCleanup_def
        addEventListener_def removeEventListener_def)
  show ?thesis
    using i j
      window_binding_lifecycle [of "[PointerDown True, PointerUp]" False]
      window_binding_lifecycle [of "[PointerDown True, PointerUp, PointerDown False]" False]
    by blast
qed

end
